theory Spec2Isabelle
  imports Complex_Main
begin

section \<open>Text and character classes\<close>

text \<open>
  A Python \<open>str\<close> is a sequence of Unicode code points, modelled as a list of
  integers; \<open>str\<close> below writes an ASCII literal as such a list. The character
  classes are those of CPython 3.11 (Unicode 14.0), over all code points:
  \<open>\s\<close> in a \<open>str\<close> pattern, \<open>str.strip()\<close> and \<open>str.isspace\<close> use one whitespace
  test; \<open>\d\<close> in a \<open>str\<close> pattern is the decimal digits (\<open>str.isdecimal\<close>); and
  \<open>str.isdigit\<close> accepts the decimal digits and the other characters with a digit
  value, such as the superscripts.
\<close>

type_synonym codepoint = int

type_synonym pystr = "codepoint list"

definition ord :: "char \<Rightarrow> codepoint" where
  "ord c = of_char c"

definition str :: "string \<Rightarrow> pystr" where
  "str s = map ord s"

definition in_ranges :: "(int \<times> int) list \<Rightarrow> codepoint \<Rightarrow> bool" where
  "in_ranges rs c = list_ex (\<lambda>(lo, hi). lo \<le> c \<and> c \<le> hi) rs"

definition whitespace_ranges :: "(int \<times> int) list" where
  "whitespace_ranges =
     [(9, 13), (28, 32), (133, 133), (160, 160), (5760, 5760), (8192, 8202), (8232, 8233),
(8239, 8239), (8287, 8287), (12288, 12288)]"

definition decimal_ranges :: "(int \<times> int) list" where
  "decimal_ranges =
     [(48, 57), (1632, 1641), (1776, 1785), (1984, 1993), (2406, 2415), (2534, 2543),
      (2662, 2671), (2790, 2799), (2918, 2927), (3046, 3055), (3174, 3183),
      (3302, 3311), (3430, 3439), (3558, 3567), (3664, 3673), (3792, 3801),
      (3872, 3881), (4160, 4169), (4240, 4249), (6112, 6121), (6160, 6169),
      (6470, 6479), (6608, 6617), (6784, 6793), (6800, 6809), (6992, 7001),
      (7088, 7097), (7232, 7241), (7248, 7257), (42528, 42537), (43216, 43225),
      (43264, 43273), (43472, 43481), (43504, 43513), (43600, 43609), (44016, 44025),
      (65296, 65305), (66720, 66729), (68912, 68921), (69734, 69743), (69872, 69881),
      (69942, 69951), (70096, 70105), (70384, 70393), (70736, 70745), (70864, 70873),
      (71248, 71257), (71360, 71369), (71472, 71481), (71904, 71913), (72016, 72025),
      (72784, 72793), (73040, 73049), (73120, 73129), (92768, 92777), (92864, 92873),
      (93008, 93017), (120782, 120831), (123200, 123209), (123632, 123641),
      (125264, 125273), (130032, 130041)]"

definition other_digit_ranges :: "(int \<times> int) list" where
  "other_digit_ranges =
     [(178, 179), (185, 185), (4969, 4977), (6618, 6618), (8304, 8304), (8308, 8313),
      (8320, 8329), (9312, 9320), (9332, 9340), (9352, 9360), (9450, 9450),
      (9461, 9469), (9471, 9471), (10102, 10110), (10112, 10120), (10122, 10130),
      (68160, 68163), (69216, 69224), (69714, 69722), (127232, 127242)]"

definition isspace :: "codepoint \<Rightarrow> bool" where
  "isspace c = in_ranges whitespace_ranges c"

definition isdecimal :: "codepoint \<Rightarrow> bool" where
  "isdecimal c = in_ranges decimal_ranges c"

definition isdigit :: "codepoint \<Rightarrow> bool" where
  "isdigit c = (isdecimal c \<or> in_ranges other_digit_ranges c)"

text \<open>The range \<open>0-9\<close> of a character class, and the escapes \<open>\d\<close> and \<open>\s\<close>.\<close>

definition range_0_9 :: "codepoint \<Rightarrow> bool" where
  "range_0_9 c = (ord CHR ''0'' \<le> c \<and> c \<le> ord CHR ''9'')"

definition re_d :: "codepoint \<Rightarrow> bool" where
  "re_d c = isdecimal c"

definition re_s :: "codepoint \<Rightarrow> bool" where
  "re_s c = isspace c"

section \<open>Regular expressions\<close>

text \<open>
  The patterns of \<open>utils/math_utils.py\<close> use character classes, concatenation,
  \<open>*\<close> and \<open>+\<close>. Whether \<open>re.match\<close> or \<open>re.search\<close> finds a match depends on the
  language of the pattern only; it is decided here with derivatives.
\<close>

datatype regex =
    Nul
  | Eps
  | Chars "codepoint \<Rightarrow> bool"
  | Alt regex regex
  | Seq regex regex
  | Star regex

definition PlusR :: "regex \<Rightarrow> regex" where
  "PlusR r = Seq r (Star r)"

fun nullable :: "regex \<Rightarrow> bool" where
  "nullable Nul = False"
| "nullable Eps = True"
| "nullable (Chars p) = False"
| "nullable (Alt r s) = (nullable r \<or> nullable s)"
| "nullable (Seq r s) = (nullable r \<and> nullable s)"
| "nullable (Star r) = True"

fun deriv :: "codepoint \<Rightarrow> regex \<Rightarrow> regex" where
  "deriv c Nul = Nul"
| "deriv c Eps = Nul"
| "deriv c (Chars p) = (if p c then Eps else Nul)"
| "deriv c (Alt r s) = Alt (deriv c r) (deriv c s)"
| "deriv c (Seq r s) =
     (if nullable r then Alt (Seq (deriv c r) s) (deriv c s) else Seq (deriv c r) s)"
| "deriv c (Star r) = Seq (deriv c r) (Star r)"

text \<open>\<open>pattern.match(s)\<close>: some prefix of \<open>s\<close> matches.\<close>

fun re_match :: "regex \<Rightarrow> pystr \<Rightarrow> bool" where
  "re_match r [] = nullable r"
| "re_match r (c # cs) = (nullable r \<or> re_match (deriv c r) cs)"

text \<open>\<open>re.search(pattern, s)\<close>: a match starts at some position of \<open>s\<close>.\<close>

fun re_search :: "regex \<Rightarrow> pystr \<Rightarrow> bool" where
  "re_search r [] = nullable r"
| "re_search r (c # cs) = (re_match r (c # cs) \<or> re_search r cs)"

text \<open>
  \<open>re.findall\<close> with a pattern \<open>[C]+\<close>: at a character of the class the greedy \<open>+\<close>
  takes every following character of the class, the match is recorded and the scan
  goes on behind it; any other character is skipped.
\<close>

function findall_plus :: "(codepoint \<Rightarrow> bool) \<Rightarrow> pystr \<Rightarrow> pystr list" where
  "findall_plus p [] = []"
| "findall_plus p (c # cs) =
     (if p c then (c # takeWhile p cs) # findall_plus p (dropWhile p cs)
      else findall_plus p cs)"
  by pat_completeness auto
termination
  by (relation "measure (\<lambda>(p, s). length s)") (auto simp: length_dropWhile_le less_Suc_eq_le)

text \<open>\<open>re.sub\<close> with a pattern \<open>[C]+\<close>: every match is replaced, the rest is kept.\<close>

function sub_plus :: "(codepoint \<Rightarrow> bool) \<Rightarrow> pystr \<Rightarrow> pystr \<Rightarrow> pystr" where
  "sub_plus p repl [] = []"
| "sub_plus p repl (c # cs) =
     (if p c then repl @ sub_plus p repl (dropWhile p cs)
      else c # sub_plus p repl cs)"
  by pat_completeness auto
termination
  by (relation "measure (\<lambda>(p, repl, s). length s)")
    (auto simp: length_dropWhile_le less_Suc_eq_le)

text \<open>\<open>str.strip()\<close> removes the whitespace at both ends.\<close>

definition strip :: "pystr \<Rightarrow> pystr" where
  "strip s = rev (dropWhile isspace (rev (dropWhile isspace s)))"

text \<open>
  \<open>max(xs, key=len)\<close> on a non-empty list: the first element of the greatest length
  (a later element replaces the best one only when it is strictly longer).
\<close>

fun max_len_from :: "pystr \<Rightarrow> pystr list \<Rightarrow> pystr" where
  "max_len_from best [] = best"
| "max_len_from best (x # xs) =
     max_len_from (if length best < length x then x else best) xs"

section \<open>utils/math\_utils.py\<close>

text \<open>\<open>_MATH_CHARS = re.compile(r"[0-9\+\-\*\/\^\(\)\.\s]")\<close>\<close>

definition math_class :: "codepoint \<Rightarrow> bool" where
  "math_class c = (range_0_9 c \<or> c = ord CHR ''+'' \<or> c = ord CHR ''-''
     \<or> c = ord CHR ''*'' \<or> c = ord CHR ''/'' \<or> c = ord CHR ''^''
     \<or> c = ord CHR ''('' \<or> c = ord CHR '')'' \<or> c = ord CHR ''.'' \<or> re_s c)"

definition MATH_CHARS :: regex where
  "MATH_CHARS = Chars math_class"

text \<open>\<open>[\+\-\*\/\^]\<close>\<close>

definition op_class :: "codepoint \<Rightarrow> bool" where
  "op_class c = (c = ord CHR ''+'' \<or> c = ord CHR ''-'' \<or> c = ord CHR ''*''
     \<or> c = ord CHR ''/'' \<or> c = ord CHR ''^'')"

text \<open>\<open>r"\d+\s*[\+\-\*\/\^]\s*\d+"\<close>\<close>

definition embedded_pattern :: regex where
  "embedded_pattern =
     Seq (PlusR (Chars re_d)) (Seq (Star (Chars re_s)) (Seq (Chars op_class)
       (Seq (Star (Chars re_s)) (PlusR (Chars re_d)))))"

text \<open>
  The argument \<open>text\<close> is a string or \<open>None\<close>; \<open>not text\<close> holds for \<open>None\<close> and for
  the empty string. The three local variables of \<open>is_math_question\<close>:
\<close>

definition only_mathish :: "pystr \<Rightarrow> bool" where
  "only_mathish text = list_all (\<lambda>ch. re_match MATH_CHARS [ch]) text"

definition has_digit :: "pystr \<Rightarrow> bool" where
  "has_digit text = list_ex isdigit text"

definition has_op :: "pystr \<Rightarrow> bool" where
  "has_op text = list_ex (\<lambda>op. op \<in> set text) (str ''+-*/^'')"

definition is_math_question :: "pystr option \<Rightarrow> bool" where
  "is_math_question arg =
     (case arg of
        None \<Rightarrow> False
      | Some text \<Rightarrow>
          if text = [] then False
          else (only_mathish text \<and> has_digit text \<and> has_op text)
            \<or> re_search embedded_pattern text)"

text \<open>
  \<open>re.findall(r"[0-9\.\s\+\-\*\/\^\(\)]+", text)\<close> uses the same class as
  \<open>_MATH_CHARS\<close>; \<open>re.sub(r"\s+", "", expr)\<close> removes the whitespace.
\<close>

definition extract_expression :: "pystr option \<Rightarrow> pystr option" where
  "extract_expression arg =
     (case arg of
        None \<Rightarrow> None
      | Some text \<Rightarrow>
          if text = [] then None
          else
            (case findall_plus math_class text of
               [] \<Rightarrow> None
             | m # ms \<Rightarrow>
                 let expr = strip (max_len_from m ms);
                     expr = sub_plus re_s [] expr
                 in if expr = [] then None else Some expr))"

section \<open>Python values\<close>

text \<open>
  Integers are unbounded. A float is a double: a finite value is kept as the rational
  it denotes, and minus zero, the infinities and NaN are values of their own. A
  complex number is its real and imaginary part.
\<close>

datatype pyfloat = Finite rat | NegZero | PosInf | NegInf | NaN

datatype number = NInt int | NBool bool | NFloat pyfloat | NComplex pyfloat pyfloat

text \<open>
  What a call can raise: the module's own \<open>EvalError\<close>, \<open>ZeroDivisionError\<close>, and any
  other subclass of \<open>Exception\<close> (\<open>SyntaxError\<close>, \<open>OverflowError\<close>, \<open>ValueError\<close>,
  \<open>MemoryError\<close>, ...) with the text \<open>str(e)\<close> gives.
\<close>

datatype exn = EvalError pystr | ZeroDivisionError pystr | OtherException pystr

subsection \<open>Integer true division\<close>

text \<open>
  \<open>a / b\<close> on two integers is the double nearest to the exact quotient, ties to the
  even mantissa; it raises \<open>ZeroDivisionError\<close> for \<open>b = 0\<close> and \<open>OverflowError\<close> when
  the rounded quotient is beyond the doubles. A double is \<open>m * 2 ^ e\<close> with
  \<open>m < 2 ^ 53\<close> and \<open>- 1074 \<le> e \<le> 971\<close>.
\<close>

function bit_length :: "int \<Rightarrow> int" where
  "bit_length n = (if n \<le> 0 then 0 else 1 + bit_length (n div 2))"
  by pat_completeness auto
termination
  by (relation "measure nat") auto

declare bit_length.simps [simp del]

definition round_half_even :: "int \<Rightarrow> int \<Rightarrow> int" where
  "round_half_even n d =
     (let q = n div d; r = n mod d
      in if 2 * r < d then q else if d < 2 * r then q + 1 else if even q then q else q + 1)"

definition pow2 :: "int \<Rightarrow> rat" where
  "pow2 e = (if 0 \<le> e then 2 ^ nat e else 1 / 2 ^ nat (- e))"

definition scaled_round :: "int \<Rightarrow> int \<Rightarrow> int \<Rightarrow> int" where
  "scaled_round n d e =
     (if 0 \<le> e then round_half_even n (d * 2 ^ nat e)
      else round_half_even (n * 2 ^ nat (- e)) d)"

definition floor_log2_quot :: "int \<Rightarrow> int \<Rightarrow> int" where
  "floor_log2_quot n d =
     (let k = bit_length n - bit_length d
      in if (if 0 \<le> k then d * 2 ^ nat k \<le> n else d \<le> n * 2 ^ nat (- k)) then k
         else k - 1)"

text \<open>
  The double nearest to \<open>n / d\<close> for positive \<open>n\<close> and \<open>d\<close>, as mantissa and
  exponent; \<open>None\<close> when it is beyond the largest double.
\<close>

definition nearest_double :: "int \<Rightarrow> int \<Rightarrow> (int \<times> int) option" where
  "nearest_double n d =
     (let e = max (floor_log2_quot n d - 52) (- 1074);
          m = scaled_round n d e
      in if 971 < e \<or> (e = 971 \<and> 2 ^ 53 \<le> m) then None else Some (m, e))"

definition int_truediv :: "int \<Rightarrow> int \<Rightarrow> exn + number" where
  "int_truediv a b =
     (if b = 0 then Inl (ZeroDivisionError (str ''division by zero''))
      else
        let negative = ((a < 0) \<noteq> (b < 0))
        in if a = 0 then Inr (NFloat (if negative then NegZero else Finite 0))
           else
             (case nearest_double \<bar>a\<bar> \<bar>b\<bar> of
                None \<Rightarrow>
                  Inl (OtherException (str ''integer division result too large for a float''))
              | Some (m, e) \<Rightarrow>
                  if m = 0 then Inr (NFloat (if negative then NegZero else Finite 0))
                  else Inr (NFloat (Finite ((if negative then - 1 else 1) * of_int m * pow2 e)))))"

subsection \<open>Floats\<close>

text \<open>\<open>float.is_integer()\<close>, \<open>int(x)\<close> on a float, and unary minus.\<close>

fun is_integer :: "pyfloat \<Rightarrow> bool" where
  "is_integer (Finite q) = (q = of_int \<lfloor>q\<rfloor>)"
| "is_integer NegZero = True"
| "is_integer PosInf = False"
| "is_integer NegInf = False"
| "is_integer NaN = False"

fun int_of_float :: "pyfloat \<Rightarrow> exn + int" where
  "int_of_float (Finite q) = Inr (if 0 \<le> q then \<lfloor>q\<rfloor> else \<lceil>q\<rceil>)"
| "int_of_float NegZero = Inr 0"
| "int_of_float PosInf = Inl (OtherException (str ''cannot convert float infinity to integer''))"
| "int_of_float NegInf = Inl (OtherException (str ''cannot convert float infinity to integer''))"
| "int_of_float NaN = Inl (OtherException (str ''cannot convert float NaN to integer''))"

fun float_neg :: "pyfloat \<Rightarrow> pyfloat" where
  "float_neg (Finite q) = (if q = 0 then NegZero else Finite (- q))"
| "float_neg NegZero = Finite 0"
| "float_neg PosInf = NegInf"
| "float_neg NegInf = PosInf"
| "float_neg NaN = NaN"

section \<open>The syntax tree of the ast module\<close>

text \<open>
  The value of an \<open>ast.Constant\<close>, the operator classes, and the expression nodes.
  The nodes the evaluator never looks into are kept by class name with their
  children (\<open>OtherExpr\<close>); \<open>Name\<close> and \<open>Call\<close> are spelled out for the examples.
\<close>

datatype pyconst =
    CInt int
  | CFloat pyfloat
  | CComplex pyfloat pyfloat
  | CBool bool
  | CStr pystr
  | CBytes "int list"
  | CNone
  | CEllipsis

datatype operator =
    Add | Sub | Mult | MatMult | Div | Mod | PowOp | LShift | RShift
  | BitOr | BitXor | BitAnd | FloorDiv

datatype unaryop = Invert | NotOp | UAdd | USub

datatype expr =
    Constant pyconst
  | BinOp expr operator expr
  | UnaryOp unaryop expr
  | Name pystr
  | Call expr "expr list"
  | OtherExpr pystr "expr list"

section \<open>The host\<close>

text \<open>
  What calculator/evaluator.py takes from the interpreter and is not in the
  repository: \<open>ast.parse(expr, mode="eval")\<close>, given here with the \<open>body\<close> of the
  \<open>Expression\<close> it returns; the arithmetic of the operator module as soon as a float
  or a complex number is an operand, and integer powers with a negative exponent
  (they go through the C library); and \<open>str()\<close> of a number, which the f-string of
  \<open>handle_math\<close> calls. Integer arithmetic is modelled below.
\<close>

record host =
  ast_parse :: "pystr \<Rightarrow> exn + expr"
  float_arith :: "operator \<Rightarrow> number \<Rightarrow> number \<Rightarrow> exn + number"
  str_number :: "number \<Rightarrow> exn + pystr"

section \<open>calculator/evaluator.py\<close>

text \<open>\<open>bool\<close> is a subclass of \<open>int\<close>: \<open>True\<close> counts as 1 and \<open>False\<close> as 0.\<close>

fun as_int :: "number \<Rightarrow> int option" where
  "as_int (NInt i) = Some i"
| "as_int (NBool b) = Some (if b then 1 else 0)"
| "as_int (NFloat f) = None"
| "as_int (NComplex re im) = None"

definition op_add :: "host \<Rightarrow> number \<Rightarrow> number \<Rightarrow> exn + number" where
  "op_add h a b =
     (case (as_int a, as_int b) of
        (Some x, Some y) \<Rightarrow> Inr (NInt (x + y))
      | _ \<Rightarrow> float_arith h Add a b)"

definition op_sub :: "host \<Rightarrow> number \<Rightarrow> number \<Rightarrow> exn + number" where
  "op_sub h a b =
     (case (as_int a, as_int b) of
        (Some x, Some y) \<Rightarrow> Inr (NInt (x - y))
      | _ \<Rightarrow> float_arith h Sub a b)"

definition op_mul :: "host \<Rightarrow> number \<Rightarrow> number \<Rightarrow> exn + number" where
  "op_mul h a b =
     (case (as_int a, as_int b) of
        (Some x, Some y) \<Rightarrow> Inr (NInt (x * y))
      | _ \<Rightarrow> float_arith h Mult a b)"

definition op_truediv :: "host \<Rightarrow> number \<Rightarrow> number \<Rightarrow> exn + number" where
  "op_truediv h a b =
     (case (as_int a, as_int b) of
        (Some x, Some y) \<Rightarrow> int_truediv x y
      | _ \<Rightarrow> float_arith h Div a b)"

definition op_pow :: "host \<Rightarrow> number \<Rightarrow> number \<Rightarrow> exn + number" where
  "op_pow h a b =
     (case (as_int a, as_int b) of
        (Some x, Some y) \<Rightarrow>
          if 0 \<le> y then Inr (NInt (x ^ nat y)) else float_arith h PowOp a b
      | _ \<Rightarrow> float_arith h PowOp a b)"

fun op_neg :: "number \<Rightarrow> exn + number" where
  "op_neg (NInt i) = Inr (NInt (- i))"
| "op_neg (NBool b) = Inr (NInt (- (if b then 1 else 0)))"
| "op_neg (NFloat f) = Inr (NFloat (float_neg f))"
| "op_neg (NComplex re im) = Inr (NComplex (float_neg re) (float_neg im))"

fun op_pos :: "number \<Rightarrow> exn + number" where
  "op_pos (NInt i) = Inr (NInt i)"
| "op_pos (NBool b) = Inr (NInt (if b then 1 else 0))"
| "op_pos (NFloat f) = Inr (NFloat f)"
| "op_pos (NComplex re im) = Inr (NComplex re im)"

text \<open>
  \<open>_ALLOWED\<close>, the dictionary from operator classes to functions. The \<open>op\<close> of a
  \<open>BinOp\<close> is a binary operator class and the \<open>op\<close> of a \<open>UnaryOp\<close> a unary one, so the
  dictionary is read here as one map for each.
\<close>

fun ALLOWED_binary :: "host \<Rightarrow> operator \<Rightarrow> (number \<Rightarrow> number \<Rightarrow> exn + number) option" where
  "ALLOWED_binary h Add = Some (op_add h)"
| "ALLOWED_binary h Sub = Some (op_sub h)"
| "ALLOWED_binary h Mult = Some (op_mul h)"
| "ALLOWED_binary h Div = Some (op_truediv h)"
| "ALLOWED_binary h PowOp = Some (op_pow h)"
| "ALLOWED_binary h _ = None"

fun ALLOWED_unary :: "unaryop \<Rightarrow> (number \<Rightarrow> exn + number) option" where
  "ALLOWED_unary USub = Some op_neg"
| "ALLOWED_unary UAdd = Some op_pos"
| "ALLOWED_unary _ = None"

text \<open>
  \<open>isinstance(node, ast.Num)\<close> holds for a \<open>Constant\<close> whose value is an int, a float
  or a complex number and not a bool (Python 3.8 to 3.13, where \<open>ast.Num\<close> is the
  deprecated alias); \<open>node.n\<close> is that value. \<open>isinstance(node.value, (int, float))\<close>
  holds for an int, a float and a bool.
\<close>

fun isinstance_Num :: "pyconst \<Rightarrow> number option" where
  "isinstance_Num (CInt i) = Some (NInt i)"
| "isinstance_Num (CFloat f) = Some (NFloat f)"
| "isinstance_Num (CComplex re im) = Some (NComplex re im)"
| "isinstance_Num _ = None"

fun isinstance_int_float :: "pyconst \<Rightarrow> number option" where
  "isinstance_int_float (CInt i) = Some (NInt i)"
| "isinstance_int_float (CFloat f) = Some (NFloat f)"
| "isinstance_int_float (CBool b) = Some (NBool b)"
| "isinstance_int_float _ = None"

definition unsupported :: exn where
  "unsupported = EvalError (str ''Unsupported operation or structure.'')"

text \<open>
  The nested function \<open>_eval\<close>: the left operand is evaluated before the right.
  Integers are of any size and the tree of any depth: the memory and the recursion
  limit of the interpreter are not part of the model.
\<close>

fun eval_node :: "host \<Rightarrow> expr \<Rightarrow> exn + number" where
  "eval_node h (Constant c) =
     (case isinstance_Num c of
        Some n \<Rightarrow> Inr n
      | None \<Rightarrow>
          (case isinstance_int_float c of
             Some v \<Rightarrow> Inr v
           | None \<Rightarrow> Inl unsupported))"
| "eval_node h (BinOp left op right) =
     (case ALLOWED_binary h op of
        Some f \<Rightarrow>
          (case eval_node h left of
             Inl e \<Rightarrow> Inl e
           | Inr a \<Rightarrow>
               (case eval_node h right of
                  Inl e \<Rightarrow> Inl e
                | Inr b \<Rightarrow> f a b))
      | None \<Rightarrow> Inl unsupported)"
| "eval_node h (UnaryOp op operand) =
     (case ALLOWED_unary op of
        Some f \<Rightarrow>
          (case eval_node h operand of
             Inl e \<Rightarrow> Inl e
           | Inr a \<Rightarrow> f a)
      | None \<Rightarrow> Inl unsupported)"
| "eval_node h (Name ident) = Inl unsupported"
| "eval_node h (Call func args) = Inl unsupported"
| "eval_node h (OtherExpr cls children) = Inl unsupported"

text \<open>\<open>expr.replace("^", "**")\<close>\<close>

definition replace_char :: "codepoint \<Rightarrow> pystr \<Rightarrow> pystr \<Rightarrow> pystr" where
  "replace_char old new s = concat (map (\<lambda>c. if c = old then new else [c]) s)"

text \<open>
  The argument of \<open>safe_eval\<close>: \<open>None\<close>, a string, or an object of another type.
  The \<open>try\<close> block and its three handlers:
\<close>

datatype pyarg = ArgNone | ArgStr pystr | ArgOther

definition try_block :: "host \<Rightarrow> pystr \<Rightarrow> exn + number" where
  "try_block h expr =
     (case ast_parse h expr of
        Inl e \<Rightarrow> Inl e
      | Inr body \<Rightarrow> eval_node h body)"

fun handlers :: "exn + number \<Rightarrow> exn + number" where
  "handlers (Inr v) = Inr v"
| "handlers (Inl (EvalError m)) = Inl (EvalError m)"
| "handlers (Inl (ZeroDivisionError m)) = Inl (EvalError (str ''Division by zero.''))"
| "handlers (Inl (OtherException m)) = Inl (EvalError ((str ''Invalid expression: '') @ m))"

fun safe_eval :: "host \<Rightarrow> pyarg \<Rightarrow> exn + number" where
  "safe_eval h ArgNone = Inl (EvalError (str ''Empty or invalid expression.''))"
| "safe_eval h ArgOther = Inl (EvalError (str ''Empty or invalid expression.''))"
| "safe_eval h (ArgStr expr) =
     (if expr = [] then Inl (EvalError (str ''Empty or invalid expression.''))
      else handlers (try_block h (replace_char (ord CHR ''^'') (str ''**'') expr)))"

section \<open>handle\_math of main.py\<close>

definition handle_math :: "host \<Rightarrow> pystr option \<Rightarrow> exn + pystr" where
  "handle_math h question =
     (case extract_expression question of
        None \<Rightarrow> Inl (EvalError (str ''Could not extract a valid math expression.''))
      | Some expr \<Rightarrow>
          if expr = [] then Inl (EvalError (str ''Could not extract a valid math expression.''))
          else
            (case safe_eval h (ArgStr expr) of
               Inl e \<Rightarrow> Inl e
             | Inr result \<Rightarrow>
                 (case (case result of
                          NFloat f \<Rightarrow>
                            if is_integer f
                            then (case int_of_float f of Inl e \<Rightarrow> Inl e | Inr i \<Rightarrow> Inr (NInt i))
                            else Inr result
                        | _ \<Rightarrow> Inr result) of
                    Inl e \<Rightarrow> Inl e
                  | Inr shown \<Rightarrow>
                      (case str_number h shown of
                         Inl e \<Rightarrow> Inl e
                       | Inr s \<Rightarrow> Inr (expr @ (str '' = '') @ s)))))"

section \<open>A host for the examples\<close>

text \<open>
  The results of CPython's parser for the strings of the examples (after the
  rewriting of \<open>^\<close>), as a table; a host with this parser, no floating-point unit,
  and \<open>str()\<close> on integers only.
\<close>

definition num :: "int \<Rightarrow> expr" where
  "num i = Constant (CInt i)"

definition example_parse :: "pystr \<Rightarrow> exn + expr" where
  "example_parse s =
     (if s = (str ''2**10'') then Inr (BinOp (num 2) PowOp (num 10))
      else if s = (str ''10/4'') then Inr (BinOp (num 10) Div (num 4))
      else if s = (str ''4/2'') then Inr (BinOp (num 4) Div (num 2))
      else if s = (str ''5/0'') then Inr (BinOp (num 5) Div (num 0))
      else if s = (str ''2+2'') then Inr (BinOp (num 2) Add (num 2))
      else if s = (str ''1/3'') then Inr (BinOp (num 1) Div (num 3))
      else if s = (str ''10**400/3'')
        then Inr (BinOp (BinOp (num 10) PowOp (num 400)) Div (num 3))
      else if s = (str ''1/0+x'')
        then Inr (BinOp (BinOp (num 1) Div (num 0)) Add (Name (str ''x'')))
      else if s = (str ''1+x'') then Inr (BinOp (num 1) Add (Name (str ''x'')))
      else if s = (str ''True'') then Inr (Constant (CBool True))
      else if s = (str ''True+1'') then Inr (BinOp (Constant (CBool True)) Add (num 1))
      else if s = (str ''__import__('os')'')
        then Inr (Call (Name (str ''__import__'')) [Constant (CStr (str ''os''))])
      else if s = (str ''open('f')'')
        then Inr (Call (Name (str ''open'')) [Constant (CStr (str ''f''))])
      else if s = (str ''2+'') then Inl (OtherException (str ''invalid syntax (<unknown>, line 1)''))
      else Inl (OtherException (str ''not in the table of examples'')))"

function str_nat :: "nat \<Rightarrow> pystr" where
  "str_nat n =
     (if n < 10 then [48 + int n] else str_nat (n div 10) @ [48 + int (n mod 10)])"
  by pat_completeness auto
termination
  by (relation "measure id") auto

declare str_nat.simps [simp del]

definition str_int :: "int \<Rightarrow> pystr" where
  "str_int i = (if i < 0 then ord CHR ''-'' # str_nat (nat (- i)) else str_nat (nat i))"

definition example_str :: "number \<Rightarrow> exn + pystr" where
  "example_str v =
     (case v of NInt i \<Rightarrow> Inr (str_int i) | _ \<Rightarrow> Inl (OtherException (str ''no printer'')))"

definition example_host :: host where
  "example_host =
     \<lparr> ast_parse = example_parse,
       float_arith = (\<lambda>op a b. Inl (OtherException (str ''no floating-point unit''))),
       str_number = example_str \<rparr>"

section \<open>Notions used by the claims about utils/math\_utils.py\<close>

text \<open>
  A maximal run of characters of a class \<open>p\<close> inside a text \<open>a @ r @ b\<close>: \<open>r\<close> is not
  empty, all of it is in the class, and the characters next to it are not. The
  selected run is strictly longer than every run before it and at least as long as
  every run behind it.
\<close>

definition run_at :: "(codepoint \<Rightarrow> bool) \<Rightarrow> pystr \<Rightarrow> pystr \<Rightarrow> pystr \<Rightarrow> bool" where
  "run_at p a r b = (r \<noteq> [] \<and> list_all p r \<and> (a = [] \<or> \<not> p (last a)) \<and> (b = [] \<or> \<not> p (hd b)))"

definition is_run :: "(codepoint \<Rightarrow> bool) \<Rightarrow> pystr \<Rightarrow> pystr \<Rightarrow> bool" where
  "is_run p text r = (\<exists>a b. text = a @ r @ b \<and> run_at p a r b)"

definition selected_run :: "(codepoint \<Rightarrow> bool) \<Rightarrow> pystr \<Rightarrow> pystr \<Rightarrow> pystr \<Rightarrow> pystr \<Rightarrow> bool" where
  "selected_run p text a r b =
     (text = a @ r @ b \<and> run_at p a r b
      \<and> (\<forall>r'. is_run p a r' \<longrightarrow> length r' < length r)
      \<and> (\<forall>r'. is_run p b r' \<longrightarrow> length r' \<le> length r))"


text \<open>The language of a pattern.\<close>

definition conc :: "pystr set \<Rightarrow> pystr set \<Rightarrow> pystr set" where
  "conc A B = {u @ v | u v. u \<in> A \<and> v \<in> B}"

inductive_set star :: "pystr set \<Rightarrow> pystr set" for A :: "pystr set" where
  star_nil: "[] \<in> star A"
| star_step: "u \<in> A \<Longrightarrow> v \<in> star A \<Longrightarrow> u @ v \<in> star A"

fun lang :: "regex \<Rightarrow> pystr set" where
  "lang Nul = {}"
| "lang Eps = {[]}"
| "lang (Chars p) = {[c] | c. p c}"
| "lang (Alt r s) = lang r \<union> lang s"
| "lang (Seq r s) = conc (lang r) (lang s)"
| "lang (Star r) = star (lang r)"

text \<open>
  The two heuristics in the words of the specification; a digit is a Unicode
  decimal digit.
\<close>

definition decimal_digit :: "codepoint \<Rightarrow> bool" where
  "decimal_digit c = isdecimal c"

definition digit_seq :: "pystr \<Rightarrow> bool" where
  "digit_seq ds = (ds \<noteq> [] \<and> list_all decimal_digit ds)"

definition strict_heuristic :: "pystr \<Rightarrow> bool" where
  "strict_heuristic t = ((\<forall>c\<in>set t. math_class c) \<and> (\<exists>c\<in>set t. decimal_digit c)
     \<and> (\<exists>c\<in>set t. op_class c))"

definition loose_heuristic :: "pystr \<Rightarrow> bool" where
  "loose_heuristic t = (\<exists>pre ds1 ws1 c ws2 ds2 post.
     t = pre @ ds1 @ ws1 @ [c] @ ws2 @ ds2 @ post \<and> digit_seq ds1 \<and> list_all isspace ws1
     \<and> op_class c \<and> list_all isspace ws2 \<and> digit_seq ds2)"

section \<open>Notions used by the claims about the evaluator\<close>





text \<open>The rational a float denotes.\<close>

fun float_value :: "pyfloat \<Rightarrow> rat option" where
  "float_value (Finite q) = Some q"
| "float_value NegZero = Some 0"
| "float_value PosInf = None"
| "float_value NegInf = None"
| "float_value NaN = None"

lemma filter_dropWhile_not: "filter (\<lambda>c. \<not> p c) (dropWhile p s) = filter (\<lambda>c. \<not> p c) s"
  by (induction s) auto

lemma sub_plus_filter: "sub_plus p [] s = filter (\<lambda>c. \<not> p c) s"
  by (induction p "[] :: pystr" s rule: sub_plus.induct) (auto simp: filter_dropWhile_not)

lemma filter_strip: "filter (\<lambda>c. \<not> isspace c) (strip s) = filter (\<lambda>c. \<not> isspace c) s"
  by (simp add: strip_def filter_dropWhile_not flip: rev_filter)

lemma findall_plus_elem:
  "x \<in> set (findall_plus p s) \<Longrightarrow> x \<noteq> [] \<and> list_all p x"
proof (induction p s rule: findall_plus.induct)
  case (1 p)
  then show ?case by simp
next
  case (2 p c cs)
  show ?case
  proof (cases "p c")
    case True
    with 2 show ?thesis
      by (auto simp: list_all_iff dest: set_takeWhileD)
  next
    case False
    with 2 show ?thesis by simp
  qed
qed

lemma max_len_from_mem: "max_len_from best xs \<in> set (best # xs)"
  by (induction xs arbitrary: best) (auto split: if_splits)

lemma findall_plus_whole:
  assumes "s \<noteq> []" "list_all p s"
  shows "findall_plus p s = [s]"
proof (cases s)
  case Nil
  with assms show ?thesis by simp
next
  case (Cons c cs)
  with assms have pc: "p c" and pcs: "\<forall>x\<in>set cs. p x" by (auto simp: list_all_iff)
  have tw: "takeWhile p cs = cs" and dw: "dropWhile p cs = []" using pcs by auto
  show ?thesis by (simp add: Cons pc tw dw)
qed

lemma findall_plus_run_front:
  assumes "r \<noteq> []" "list_all p r" "b = [] \<or> \<not> p (hd b)"
  shows "findall_plus p (r @ b) = r # findall_plus p b"
proof -
  obtain c cs where r: "r = c # cs" using assms(1) by (cases r) auto
  have pc: "p c" and pcs: "\<forall>x\<in>set cs. p x" using assms(2) r by (auto simp: list_all_iff)
  have tw: "takeWhile p (cs @ b) = cs" using pcs assms(3)
    by (cases b) (auto simp: takeWhile_append2 takeWhile_eq_all_conv)
  have dw: "dropWhile p (cs @ b) = b" using pcs assms(3)
    by (cases b) (auto simp: dropWhile_append2 )
  show ?thesis by (simp add: r pc tw dw)
qed

lemma findall_plus_append:
  "a = [] \<or> \<not> p (last a) \<Longrightarrow> findall_plus p (a @ t) = findall_plus p a @ findall_plus p t"
proof (induction p a rule: findall_plus.induct)
  case (1 p)
  then show ?case by simp
next
  case (2 p c cs)
  show ?case
  proof (cases "p c")
    case False
    with 2 show ?thesis by (auto split: if_splits)
  next
    case True
    with 2 have ne: "cs \<noteq> []" and nl: "\<not> p (last cs)" by (auto split: if_splits)
    then have ex: "\<exists>x\<in>set cs. \<not> p x" using last_in_set by blast
    have tw: "takeWhile p (cs @ t) = takeWhile p cs"
      using ex by (metis takeWhile_append1)
    have dw: "dropWhile p (cs @ t) = dropWhile p cs @ t"
      using ex by (metis dropWhile_append1)
    have dne: "dropWhile p cs \<noteq> []" using ex by (simp add: dropWhile_eq_Nil_conv)
    have "last (dropWhile p cs) = last cs"
      using dne by (metis takeWhile_dropWhile_id last_appendR)
    with nl dne have "dropWhile p cs = [] \<or> \<not> p (last (dropWhile p cs))" by simp
    with 2(1)[OF True] have "findall_plus p (dropWhile p cs @ t)
        = findall_plus p (dropWhile p cs) @ findall_plus p t" by simp
    then show ?thesis by (simp add: True tw dw)
  qed
qed

lemma findall_plus_join:
  assumes "run_at p a r b"
  shows "findall_plus p (a @ r @ b) = findall_plus p a @ r # findall_plus p b"
  using assms by (simp add: run_at_def findall_plus_append findall_plus_run_front)

lemma dropWhile_hd: "dropWhile p cs = [] \<or> \<not> p (hd (dropWhile p cs))"
  by (induction cs) auto

lemma findall_plus_split:
  "findall_plus p t = xs @ r # ys \<Longrightarrow>
     \<exists>a b. t = a @ r @ b \<and> run_at p a r b \<and> findall_plus p a = xs \<and> findall_plus p b = ys"
proof (induction p t arbitrary: xs rule: findall_plus.induct)
  case (1 p)
  then show ?case by simp
next
  case (2 p c cs)
  let ?m = "c # takeWhile p cs" and ?d = "dropWhile p cs"
  show ?case
  proof (cases "p c")
    case False
    with 2 obtain a b where ab: "cs = a @ r @ b" "run_at p a r b" "findall_plus p a = xs"
        "findall_plus p b = ys" by auto
    have "run_at p (c # a) r b" using ab(2) False by (auto simp: run_at_def)
    moreover have "findall_plus p (c # a) = xs" using ab(3) False by simp
    ultimately show ?thesis using ab(1,4) by (metis append_Cons)
  next
    case True
    have split: "c # cs = ?m @ ?d" by simp
    have allm: "list_all p ?m" using True by (auto simp: list_all_iff dest: set_takeWhileD)
    from 2(3) True have eq: "?m # findall_plus p ?d = xs @ r # ys" by simp
    show ?thesis
    proof (cases xs)
      case Nil
      with eq have "r = ?m" "findall_plus p ?d = ys" by auto
      moreover have "run_at p [] ?m ?d" using allm dropWhile_hd[of p cs] by (simp add: run_at_def)
      moreover have "c # cs = [] @ ?m @ ?d" by simp
      moreover have "findall_plus p [] = xs" using Nil by simp
      ultimately show ?thesis by blast
    next
      case (Cons x xs')
      with eq have x: "x = ?m" and rest: "findall_plus p ?d = xs' @ r # ys" by auto
      from 2(1)[OF True rest] obtain a b where ab: "?d = a @ r @ b" "run_at p a r b"
          "findall_plus p a = xs'" "findall_plus p b = ys" by auto
      have ane: "a \<noteq> []"
      proof
        assume "a = []"
        with ab(1,2) have "?d \<noteq> []" "p (hd ?d)" by (auto simp: run_at_def list_all_iff neq_Nil_conv)
        then show False using dropWhile_hd[of p cs] by simp
      qed
      then have "\<not> p (hd a)" using ab(1) dropWhile_hd[of p cs] by (cases a) auto
      then have fa: "findall_plus p (?m @ a) = ?m # findall_plus p a"
        using allm by (intro findall_plus_run_front) auto
      have "run_at p (?m @ a) r b" using ab(2) ane by (simp add: run_at_def)
      moreover have "c # cs = (?m @ a) @ r @ b" using split ab(1) by (metis append_assoc)
      moreover have "findall_plus p (?m @ a) = xs" using fa ab(3) x Cons by simp
      ultimately show ?thesis using ab(4) by blast
    qed
  qed
qed

lemma is_run_iff: "is_run p t r \<longleftrightarrow> r \<in> set (findall_plus p t)"
proof
  assume "is_run p t r"
  then show "r \<in> set (findall_plus p t)"
    by (auto simp: is_run_def findall_plus_join)
next
  assume "r \<in> set (findall_plus p t)"
  then obtain xs ys where "findall_plus p t = xs @ r # ys" by (auto dest: split_list)
  from findall_plus_split[OF this] show "is_run p t r" by (auto simp: is_run_def)
qed

lemma max_len_from_keep:
  "\<forall>v\<in>set vs. length v \<le> length r \<Longrightarrow> max_len_from r vs = r"
  by (induction vs) auto

lemma max_len_from_first:
  "length best < length r \<Longrightarrow> \<forall>u\<in>set us. length u < length r \<Longrightarrow>
   \<forall>v\<in>set vs. length v \<le> length r \<Longrightarrow> max_len_from best (us @ r # vs) = r"
  by (induction us arbitrary: best) (auto simp: max_len_from_keep)

lemma max_len_first:
  assumes "m # ms = us @ r # vs" "\<forall>u\<in>set us. length u < length r"
    "\<forall>v\<in>set vs. length v \<le> length r"
  shows "max_len_from m ms = r"
proof (cases us)
  case Nil
  with assms show ?thesis by (simp add: max_len_from_keep)
next
  case (Cons u us')
  with assms show ?thesis by (simp add: max_len_from_first)
qed

lemma first_longest_exists:
  "xs \<noteq> [] \<Longrightarrow> \<exists>us r vs. xs = us @ r # vs \<and> (\<forall>u\<in>set us. length u < length (r :: pystr))
      \<and> (\<forall>v\<in>set vs. length v \<le> length r)"
proof (induction xs)
  case Nil
  then show ?case by simp
next
  case (Cons x xs)
  show ?case
  proof (cases "xs = []")
    case True
    then have "x # xs = [] @ x # []" by simp
    then show ?thesis by (metis empty_iff list.set(1))
  next
    case False
    with Cons obtain us r vs where h: "xs = us @ r # vs" "\<forall>u\<in>set us. length u < length r"
        "\<forall>v\<in>set vs. length v \<le> length r" by blast
    show ?thesis
    proof (cases "length x < length r")
      case True
      have "x # xs = (x # us) @ r # vs" using h(1) by simp
      moreover have "\<forall>u\<in>set (x # us). length u < length r" using True h(2) by simp
      ultimately show ?thesis using h(3) by blast
    next
      case False
      have "x # xs = [] @ x # xs" by simp
      moreover have "\<forall>v\<in>set xs. length v \<le> length x" using False h by auto
      ultimately show ?thesis by (metis empty_iff list.set(1))
    qed
  qed
qed


lemma only_mathish_iff: "only_mathish text \<longleftrightarrow> list_all math_class text"
  by (simp add: only_mathish_def MATH_CHARS_def)

lemma extract_expression_Some:
  "text \<noteq> [] \<Longrightarrow> findall_plus math_class text = m # ms \<Longrightarrow>
   extract_expression (Some text) =
     (let s = filter (\<lambda>c. \<not> isspace c) (max_len_from m ms) in if s = [] then None else Some s)"
  by (simp add: extract_expression_def sub_plus_filter re_s_def filter_strip Let_def)


lemma nullable_iff: "nullable r \<longleftrightarrow> [] \<in> lang r"
  by (induction r) (auto simp: conc_def intro: star_nil)

lemma star_Cons:
  "c # w \<in> star A \<longleftrightarrow> (\<exists>u v. w = u @ v \<and> c # u \<in> A \<and> v \<in> star A)"
proof
  assume "c # w \<in> star A"
  then have "\<forall>w. c # w = c # w \<longrightarrow> True" by simp
  have gen: "x \<in> star A \<Longrightarrow> x = c # w \<Longrightarrow> \<exists>u v. w = u @ v \<and> c # u \<in> A \<and> v \<in> star A" for x
  proof (induction rule: star.induct)
    case star_nil
    then show ?case by simp
  next
    case (star_step u v)
    show ?case
    proof (cases u)
      case Nil
      with star_step show ?thesis by simp
    next
      case (Cons d u')
      with star_step(4) have "d = c" "w = u' @ v" by auto
      with Cons star_step(1,2) show ?thesis by blast
    qed
  qed
  from gen[OF \<open>c # w \<in> star A\<close>] show "\<exists>u v. w = u @ v \<and> c # u \<in> A \<and> v \<in> star A" by simp
next
  assume "\<exists>u v. w = u @ v \<and> c # u \<in> A \<and> v \<in> star A"
  then obtain u v where "w = u @ v" "c # u \<in> A" "v \<in> star A" by blast
  then show "c # w \<in> star A" using star_step[of "c # u" A v] by simp
qed

lemma conc_Cons:
  "c # w \<in> conc A B \<longleftrightarrow>
     (\<exists>u v. w = u @ v \<and> c # u \<in> A \<and> v \<in> B) \<or> ([] \<in> A \<and> c # w \<in> B)"
  by (auto simp: conc_def Cons_eq_append_conv) 

lemma deriv_lang: "w \<in> lang (deriv c r) \<longleftrightarrow> c # w \<in> lang r"
proof (induction r arbitrary: w)
  case (Seq r s)
  then show ?case by (auto simp: conc_Cons nullable_iff) (auto simp: conc_def)
next
  case (Star r)
  then show ?case by (auto simp: star_Cons) (auto simp: conc_def)
qed auto

lemma re_match_iff: "re_match r s \<longleftrightarrow> (\<exists>u v. s = u @ v \<and> u \<in> lang r)"
proof (induction s arbitrary: r)
  case Nil
  then show ?case by (simp add: nullable_iff)
next
  case (Cons c cs)
  show ?case
  proof
    assume "re_match r (c # cs)"
    then consider "nullable r" | "re_match (deriv c r) cs" by auto
    then show "\<exists>u v. c # cs = u @ v \<and> u \<in> lang r"
    proof cases
      case 1
      then have "c # cs = [] @ (c # cs) \<and> [] \<in> lang r" by (simp add: nullable_iff)
      then show ?thesis by blast
    next
      case 2
      with Cons obtain u v where "cs = u @ v" "u \<in> lang (deriv c r)" by blast
      then have "c # cs = (c # u) @ v \<and> c # u \<in> lang r" by (simp add: deriv_lang)
      then show ?thesis by blast
    qed
  next
    assume "\<exists>u v. c # cs = u @ v \<and> u \<in> lang r"
    then obtain u v where uv: "c # cs = u @ v" "u \<in> lang r" by blast
    show "re_match r (c # cs)"
    proof (cases u)
      case Nil
      with uv(2) have "nullable r" by (simp add: nullable_iff)
      then show ?thesis by simp
    next
      case (Cons d u')
      with uv have "cs = u' @ v" "u' \<in> lang (deriv c r)" by (auto simp: deriv_lang)
      then have "re_match (deriv c r) cs" using Cons.IH by blast
      then show ?thesis by simp
    qed
  qed
qed

lemma re_search_iff: "re_search r s \<longleftrightarrow> (\<exists>a u b. s = a @ u @ b \<and> u \<in> lang r)"
proof (induction s)
  case Nil
  then show ?case by (simp add: nullable_iff)
next
  case (Cons c cs)
  show ?case
  proof
    assume "re_search r (c # cs)"
    then consider "re_match r (c # cs)" | "re_search r cs" by auto
    then show "\<exists>a u b. c # cs = a @ u @ b \<and> u \<in> lang r"
    proof cases
      case 1
      then obtain u v where "c # cs = [] @ u @ v" "u \<in> lang r" by (auto simp: re_match_iff)
      then show ?thesis by blast
    next
      case 2
      with Cons obtain a u b where "cs = a @ u @ b" "u \<in> lang r" by blast
      then have "c # cs = (c # a) @ u @ b \<and> u \<in> lang r" by simp
      then show ?thesis by blast
    qed
  next
    assume "\<exists>a u b. c # cs = a @ u @ b \<and> u \<in> lang r"
    then obtain a u b where h: "c # cs = a @ u @ b" "u \<in> lang r" by blast
    show "re_search r (c # cs)"
    proof (cases a)
      case Nil
      with h have "re_match r (c # cs)" unfolding re_match_iff by auto
      then show ?thesis by simp
    next
      case (Cons d a')
      with h have "cs = a' @ u @ b" by simp
      with h(2) have "re_search r cs" using Cons.IH by blast
      then show ?thesis by simp
    qed
  qed
qed

lemma star_Chars: "w \<in> star (lang (Chars p)) \<longleftrightarrow> list_all p w"
proof
  assume "w \<in> star (lang (Chars p))"
  then show "list_all p w" by (induction rule: star.induct) auto
next
  assume "list_all p w"
  then show "w \<in> star (lang (Chars p))"
  proof (induction w)
    case Nil
    then show ?case by (simp add: star_nil)
  next
    case (Cons c w)
    then have "[c] \<in> lang (Chars p)" "w \<in> star (lang (Chars p))" by auto
    from star_step[OF this] show ?case by simp
  qed
qed

lemma lang_Star_Chars: "lang (Star (Chars p)) = {w. list_all p w}"
  using star_Chars[of _ p] by (auto simp del: lang.simps(3))

lemma conc_iff: "w \<in> conc A B \<longleftrightarrow> (\<exists>u v. w = u @ v \<and> u \<in> A \<and> v \<in> B)"
  by (auto simp: conc_def)

lemma lang_Plus_Chars: "lang (PlusR (Chars p)) = {w. w \<noteq> [] \<and> list_all p w}"
proof (intro set_eqI iffI)
  fix w
  assume "w \<in> lang (PlusR (Chars p))"
  then obtain u v where "w = u @ v" "u \<in> lang (Chars p)" "v \<in> lang (Star (Chars p))"
    by (auto simp: PlusR_def conc_iff)
  then show "w \<in> {w. w \<noteq> [] \<and> list_all p w}"
    unfolding lang_Star_Chars by auto
next
  fix w
  assume "w \<in> {w. w \<noteq> [] \<and> list_all p w}"
  then obtain c cs where w: "w = [c] @ cs" "p c" "list_all p cs" by (cases w) auto
  have "[c] \<in> lang (Chars p)" using w(2) by simp
  moreover have "cs \<in> lang (Star (Chars p))" unfolding lang_Star_Chars using w(3) by simp
  ultimately have "w \<in> conc (lang (Chars p)) (lang (Star (Chars p)))"
    unfolding conc_iff using w(1) by blast
  then show "w \<in> lang (PlusR (Chars p))" by (simp add: PlusR_def)
qed

lemma lang_embedded:
  "u \<in> lang embedded_pattern \<longleftrightarrow> (\<exists>ds1 ws1 c ws2 ds2.
     u = ds1 @ ws1 @ [c] @ ws2 @ ds2 \<and> digit_seq ds1 \<and> list_all isspace ws1
     \<and> op_class c \<and> list_all isspace ws2 \<and> digit_seq ds2)"
proof -
  have d: "re_d = decimal_digit" and s: "re_s = isspace"
    by (rule ext, simp add: re_d_def decimal_digit_def) (rule ext, simp add: re_s_def)
  have digs: "w \<in> lang (PlusR (Chars re_d)) \<longleftrightarrow> digit_seq w" for w
    unfolding lang_Plus_Chars d digit_seq_def by simp
  have sps: "w \<in> lang (Star (Chars re_s)) \<longleftrightarrow> list_all isspace w" for w
    unfolding lang_Star_Chars s by simp
  have ops: "w \<in> lang (Chars op_class) \<longleftrightarrow> (\<exists>c. w = [c] \<and> op_class c)" for w
    by simp
  show ?thesis
    unfolding embedded_pattern_def lang.simps(5) conc_iff digs sps ops by blast
qed

lemma loose_iff: "re_search embedded_pattern t \<longleftrightarrow> loose_heuristic t"
proof
  assume "re_search embedded_pattern t"
  then obtain a u b where t: "t = a @ u @ b" and u: "u \<in> lang embedded_pattern"
    unfolding re_search_iff by blast
  from u obtain ds1 ws1 c ws2 ds2 where
    h: "u = ds1 @ ws1 @ [c] @ ws2 @ ds2" "digit_seq ds1" "list_all isspace ws1"
       "op_class c" "list_all isspace ws2" "digit_seq ds2"
    unfolding lang_embedded by blast
  have "t = a @ ds1 @ ws1 @ [c] @ ws2 @ ds2 @ b" using t h(1) by simp
  with h(2-) show "loose_heuristic t" unfolding loose_heuristic_def by blast
next
  assume "loose_heuristic t"
  then obtain pre ds1 ws1 c ws2 ds2 post where
    h: "t = pre @ ds1 @ ws1 @ [c] @ ws2 @ ds2 @ post" "digit_seq ds1" "list_all isspace ws1"
       "op_class c" "list_all isspace ws2" "digit_seq ds2"
    unfolding loose_heuristic_def by blast
  have "ds1 @ ws1 @ [c] @ ws2 @ ds2 \<in> lang embedded_pattern"
    unfolding lang_embedded using h(2-) by blast
  moreover have "t = pre @ (ds1 @ ws1 @ [c] @ ws2 @ ds2) @ post" using h(1) by simp
  ultimately show "re_search embedded_pattern t" unfolding re_search_iff by blast
qed

lemma ranges_disjoint:
  assumes "list_all (\<lambda>(lo, hi). list_all (\<lambda>(lo', hi'). hi < lo' \<or> hi' < lo) rs2) rs1"
    and "in_ranges rs1 c"
  shows "\<not> in_ranges rs2 c"
proof
  assume "in_ranges rs2 c"
  then obtain lo' hi' where b: "(lo', hi') \<in> set rs2" "lo' \<le> c" "c \<le> hi'"
    by (auto simp: in_ranges_def list_ex_iff)
  from assms(2) obtain lo hi where a: "(lo, hi) \<in> set rs1" "lo \<le> c" "c \<le> hi"
    by (auto simp: in_ranges_def list_ex_iff)
  from assms(1) a(1) b(1) have "hi < lo' \<or> hi' < lo" by (auto simp: list_all_iff)
  with a b show False by auto
qed

lemma space_not_digit: "isspace c \<Longrightarrow> \<not> isdigit c"
proof -
  assume "isspace c"
  then have s: "in_ranges whitespace_ranges c" by (simp add: isspace_def)
  have "\<not> in_ranges decimal_ranges c" by (rule ranges_disjoint[OF _ s]) code_simp
  moreover have "\<not> in_ranges other_digit_ranges c" by (rule ranges_disjoint[OF _ s]) code_simp
  ultimately show ?thesis by (simp add: isdigit_def isdecimal_def)
qed

lemma decimal_is_digit: "decimal_digit c \<Longrightarrow> isdigit c"
  by (simp add: decimal_digit_def isdigit_def)

lemma range_0_9_decimal: "range_0_9 c \<Longrightarrow> decimal_digit c"
  by (simp add: range_0_9_def ord_def decimal_digit_def isdecimal_def in_ranges_def
      decimal_ranges_def)

lemma punct_not_digit:
  "c \<in> set (str ''+-*/^().'') \<Longrightarrow> \<not> isdigit c"
proof -
  assume "c \<in> set (str ''+-*/^().'')"
  then have p: "in_ranges [(40, 43), (45, 47), (94, 94)] c"
    by (auto simp: str_def ord_def in_ranges_def)
  have "\<not> in_ranges decimal_ranges c" by (rule ranges_disjoint[OF _ p]) code_simp
  moreover have "\<not> in_ranges other_digit_ranges c" by (rule ranges_disjoint[OF _ p]) code_simp
  ultimately show ?thesis by (simp add: isdigit_def isdecimal_def)
qed

lemma class_digit: "math_class c \<Longrightarrow> isdigit c \<Longrightarrow> range_0_9 c"
proof -
  assume m: "math_class c" and d: "isdigit c"
  from m consider "range_0_9 c" | "c \<in> set (str ''+-*/^().'')" | "isspace c"
    by (auto simp: math_class_def re_s_def str_def)
  then show ?thesis using d space_not_digit punct_not_digit by cases auto
qed

lemma strict_iff:
  "only_mathish t \<and> has_digit t \<and> has_op t \<longleftrightarrow> strict_heuristic t"
proof -
  have m: "only_mathish t \<longleftrightarrow> (\<forall>c\<in>set t. math_class c)"
    by (simp add: only_mathish_def MATH_CHARS_def list_all_iff)
  have o: "has_op t \<longleftrightarrow> (\<exists>c\<in>set t. op_class c)"
    by (auto simp: has_op_def op_class_def str_def list_ex_iff)
  have "(\<forall>c\<in>set t. math_class c) \<Longrightarrow> has_digit t \<longleftrightarrow> (\<exists>c\<in>set t. decimal_digit c)"
    using class_digit range_0_9_decimal decimal_is_digit
    by (auto simp: has_digit_def list_ex_iff) blast+
  with m o show ?thesis by (auto simp: strict_heuristic_def)
qed

lemma selected_run_code:
  "selected_run p t a r b \<longleftrightarrow> t = a @ r @ b \<and> run_at p a r b
     \<and> list_all (\<lambda>u. length u < length r) (findall_plus p a)
     \<and> list_all (\<lambda>v. length v \<le> length r) (findall_plus p b)"
  by (auto simp: selected_run_def is_run_iff list_all_iff)

section \<open>Lemmas about the evaluator\<close>

lemma handlers_Inl: "\<exists>m. handlers (Inl e) = Inl (EvalError m)"
  by (cases e) auto

lemma handlers_cases: "(\<exists>v. handlers x = Inr v) \<or> (\<exists>m. handlers x = Inl (EvalError m))"
  by (cases x) (auto simp: handlers_Inl)









lemma safe_eval_tree:
  "expr \<noteq> [] \<Longrightarrow> ast_parse h (replace_char (ord CHR ''^'') (str ''**'') expr) = Inr tree \<Longrightarrow>
   safe_eval h (ArgStr expr) = handlers (eval_node h tree)"
  by (simp add: try_block_def)

lemma safe_eval_parse_error:
  "expr \<noteq> [] \<Longrightarrow> ast_parse h (replace_char (ord CHR ''^'') (str ''**'') expr) = Inl e \<Longrightarrow>
   safe_eval h (ArgStr expr) = handlers (Inl e)"
  by (simp add: try_block_def)

lemma safe_eval_cases:
  "(\<exists>v. safe_eval h arg = Inr v) \<or> (\<exists>m. safe_eval h arg = Inl (EvalError m))"
  by (cases arg) (auto simp: handlers_cases)

lemma extract_nonempty: "extract_expression q = Some e \<Longrightarrow> e \<noteq> []"
  by (auto simp: extract_expression_def Let_def split: option.splits if_splits list.splits)

lemma is_integer_int:
  "is_integer f \<Longrightarrow> \<exists>n. int_of_float f = Inr n \<and> float_value f = Some (of_int n)"
proof (cases f)
  case (Finite q)
  assume "is_integer f"
  with Finite have q: "q = of_int \<lfloor>q\<rfloor>" by simp
  then have "\<lceil>q\<rceil> = \<lfloor>q\<rfloor>" by (metis ceiling_of_int)
  with Finite q show ?thesis by auto
qed auto


lemma td_4_2: "int_truediv 4 2 = Inr (NFloat (Finite 2))"
  by (simp add: int_truediv_def nearest_double_def floor_log2_quot_def scaled_round_def
      round_half_even_def bit_length.simps pow2_def Let_def)





lemma parse_example:
  "ast_parse example_host s = example_parse s"
  by (simp add: example_host_def)


section \<open>Claims about utils/math\_utils.py\<close>

text \<open>
  C6. \<open>extract_expression\<close> returns \<open>None\<close> for \<open>None\<close> and for a text with no run of
  class characters. Otherwise the text splits as \<open>a @ r @ b\<close> around a maximal run
  \<open>r\<close> that is strictly longer than every run before it and at least as long as
  every run behind it (the longest run, the first one among equals), and the result
  is \<open>r\<close> without its whitespace, or \<open>None\<close> when nothing is left. The text
  \<open>what is 2 + 2 please\<close> gives \<open>2+2\<close>.
\<close>

theorem extract_expression_longest_run:
  "extract_expression None = None
   \<and> ((\<forall>r. \<not> is_run math_class text r) \<longrightarrow> extract_expression (Some text) = None)
   \<and> ((\<exists>r. is_run math_class text r) \<longrightarrow> (\<exists>a r b. selected_run math_class text a r b))
   \<and> (\<forall>a r b. selected_run math_class text a r b \<longrightarrow>
        extract_expression (Some text) =
          (let s = filter (\<lambda>c. \<not> isspace c) r in if s = [] then None else Some s))
   \<and> extract_expression (Some (str ''what is 2 + 2 please'')) = Some (str ''2+2'')"
proof (intro conjI impI allI)
  show "extract_expression None = None" by (simp add: extract_expression_def)
next
  assume "\<forall>r. \<not> is_run math_class text r"
  then have "findall_plus math_class text = []"
    by (cases "findall_plus math_class text") (auto simp: is_run_iff)
  then show "extract_expression (Some text) = None" by (simp add: extract_expression_def)
next
  assume "\<exists>r. is_run math_class text r"
  then have "findall_plus math_class text \<noteq> []" by (auto simp: is_run_iff)
  from first_longest_exists[OF this] obtain us r vs where
    h: "findall_plus math_class text = us @ r # vs" "\<forall>u\<in>set us. length u < length r"
       "\<forall>v\<in>set vs. length v \<le> length r" by blast
  from findall_plus_split[OF h(1)] obtain a b where
    ab: "text = a @ r @ b" "run_at math_class a r b" "findall_plus math_class a = us"
        "findall_plus math_class b = vs" by blast
  have "selected_run math_class text a r b"
    using ab h(2,3) by (simp add: selected_run_def is_run_iff)
  then show "\<exists>a r b. selected_run math_class text a r b" by blast
next
  fix a r b
  assume sel: "selected_run math_class text a r b"
  then have t: "text = a @ r @ b" and run: "run_at math_class a r b"
    and before: "\<forall>u\<in>set (findall_plus math_class a). length u < length r"
    and after: "\<forall>v\<in>set (findall_plus math_class b). length v \<le> length r"
    by (auto simp: selected_run_def is_run_iff)
  have ne: "text \<noteq> []" using t run by (simp add: run_at_def)
  have f: "findall_plus math_class text
      = findall_plus math_class a @ r # findall_plus math_class b"
    using t findall_plus_join[OF run] by simp
  obtain m ms where mm: "findall_plus math_class text = m # ms"
    using f by (cases "findall_plus math_class a") auto
  have "max_len_from m ms = r" using max_len_first[OF _ before after] f mm by simp
  then show "extract_expression (Some text) =
      (let s = filter (\<lambda>c. \<not> isspace c) r in if s = [] then None else Some s)"
    using extract_expression_Some[OF ne mm] by simp
next
  show "extract_expression (Some (str ''what is 2 + 2 please'')) = Some (str ''2+2'')"
    by code_simp
qed

theorem extract_expression_longest_run_witness:
  "selected_run math_class (str ''what is 2 + 2 please'')
     (str ''what is'') (str '' 2 + 2 '') (str ''please'')
   \<and> is_run math_class (str ''what is 2 + 2 please'') (str '' 2 + 2 '')
   \<and> extract_expression (Some (str ''what is 2 + 2 please'')) = Some (str ''2+2'')"
proof -
  have sel: "selected_run math_class (str ''what is 2 + 2 please'')
      (str ''what is'') (str '' 2 + 2 '') (str ''please'')"
    unfolding selected_run_code by code_simp
  have run: "is_run math_class (str ''what is 2 + 2 please'') (str '' 2 + 2 '')"
    unfolding is_run_iff by code_simp
  from extract_expression_longest_run[of "str ''what is 2 + 2 please''"] sel run
  show ?thesis by blast
qed

text \<open>
  C7. \<open>is_math_question\<close> is false for \<open>None\<close> and for the empty string, and on every
  other text it is true exactly when the strict heuristic (only class characters,
  a digit, an operator character) or the loose heuristic (digits, optional
  whitespace, one operator, optional whitespace, digits, somewhere in the text)
  holds. A digit is a Unicode decimal digit, which is what \<open>\d\<close> matches; inside the
  class only \<open>0\<close> to \<open>9\<close> are digits.
\<close>

theorem is_math_question_heuristics:
  "is_math_question None = False
   \<and> is_math_question (Some []) = False
   \<and> is_math_question (Some t) = (strict_heuristic t \<or> loose_heuristic t)
   \<and> is_math_question (Some (str ''what is 2+2'')) = True
   \<and> is_math_question (Some (str ''hello world'')) = False"
proof (intro conjI)
  show "is_math_question (Some t) = (strict_heuristic t \<or> loose_heuristic t)"
  proof (cases "t = []")
    case True
    then show ?thesis
      by (simp add: is_math_question_def strict_heuristic_def loose_heuristic_def digit_seq_def)
  next
    case False
    then show ?thesis using strict_iff[of t] loose_iff[of t] by (simp add: is_math_question_def)
  qed
  show "is_math_question (Some (str ''what is 2+2'')) = True" by code_simp
  show "is_math_question (Some (str ''hello world'')) = False" by code_simp
qed (simp_all add: is_math_question_def)

theorem is_math_question_heuristics_witness:
  "strict_heuristic (str ''2+2'') \<and> is_math_question (Some (str ''2+2''))
   \<and> loose_heuristic (str ''what is 2+2'')
   \<and> is_math_question (Some [1635, 43, 1636])"
proof -
  have s: "strict_heuristic (str ''2+2'')" unfolding strict_heuristic_def by code_simp
  have n: "\<not> strict_heuristic (str ''what is 2+2'')" unfolding strict_heuristic_def by code_simp
  have "is_math_question (Some (str ''2+2''))"
    using is_math_question_heuristics[of "str ''2+2''"] s by simp
  moreover have "loose_heuristic (str ''what is 2+2'')"
    using is_math_question_heuristics[of "str ''what is 2+2''"] n by blast
  moreover have "is_math_question (Some [1635, 43, 1636])" by code_simp
  ultimately show ?thesis using s by simp
qed

text \<open>
  C8. On a non-empty text that passes the three tests of the strict heuristic,
  \<open>extract_expression\<close> returns a string: the whole text without its whitespace,
  which is not empty.
\<close>

theorem strict_question_extracts:
  assumes "text \<noteq> []" "only_mathish text" "has_digit text" "has_op text"
  shows "extract_expression (Some text) = Some (filter (\<lambda>c. \<not> isspace c) text)
     \<and> filter (\<lambda>c. \<not> isspace c) text \<noteq> []"
proof -
  have all: "list_all math_class text" using assms(2) by (simp add: only_mathish_iff)
  then have f: "findall_plus math_class text = [text]"
    using assms(1) by (rule findall_plus_whole[rotated])
  obtain d where d: "d \<in> set text" "isdigit d"
    using assms(3) by (auto simp: has_digit_def list_ex_iff)
  have "\<not> isspace d" using d(2) space_not_digit by blast
  then have ne: "filter (\<lambda>c. \<not> isspace c) text \<noteq> []"
    using d(1) by (auto simp: filter_empty_conv)
  show ?thesis using extract_expression_Some[OF assms(1) f] ne by (simp add: Let_def)
qed

theorem strict_question_extracts_witness:
  "only_mathish (str ''2 + 2'') \<and> has_digit (str ''2 + 2'') \<and> has_op (str ''2 + 2'')
   \<and> extract_expression (Some (str ''2 + 2'')) = Some (str ''2+2'')"
proof -
  have m: "only_mathish (str ''2 + 2'')" by code_simp
  have d: "has_digit (str ''2 + 2'')" by code_simp
  have p: "has_op (str ''2 + 2'')" by code_simp
  have f: "filter (\<lambda>c. \<not> isspace c) (str ''2 + 2'') = str ''2+2''" by code_simp
  have "str ''2 + 2'' \<noteq> []" by (simp add: str_def)
  from strict_question_extracts[OF this m d p] m d p f show ?thesis by simp
qed

text \<open>
  C9. A string returned by \<open>extract_expression\<close> is not empty, has no whitespace, and
  consists of the digits \<open>0\<close> to \<open>9\<close> and the characters \<open>. + - * / ^ ( )\<close>.
\<close>

theorem extract_expression_charset:
  "extract_expression arg = Some s \<Longrightarrow>
   s \<noteq> [] \<and> (\<forall>c\<in>set s. \<not> isspace c \<and> (range_0_9 c \<or> c \<in> set (str ''.+-*/^()'')))"
proof -
  assume h: "extract_expression arg = Some s"
  then obtain t where arg: "arg = Some t" and ne: "t \<noteq> []"
    by (auto simp: extract_expression_def split: option.splits if_splits)
  from h arg ne obtain m ms where f: "findall_plus math_class t = m # ms"
    by (auto simp: extract_expression_def split: list.splits)
  let ?r = "max_len_from m ms"
  from h arg extract_expression_Some[OF ne f]
  have s: "s = filter (\<lambda>c. \<not> isspace c) ?r" and sne: "s \<noteq> []"
    by (auto simp: Let_def split: if_splits)
  have "?r \<in> set (findall_plus math_class t)" using max_len_from_mem[of m ms] f by simp
  then have "list_all math_class ?r" by (simp add: findall_plus_elem)
  then have "\<forall>c\<in>set s. math_class c \<and> \<not> isspace c" using s by (auto simp: list_all_iff)
  then have "\<forall>c\<in>set s. \<not> isspace c \<and> (range_0_9 c \<or> c \<in> set (str ''.+-*/^()''))"
    by (auto simp: math_class_def re_s_def str_def)
  with sne show ?thesis by simp
qed

theorem extract_expression_charset_witness:
  "extract_expression (Some (str ''what is 2 + 2 please'')) = Some (str ''2+2'')
   \<and> list_all (\<lambda>c. \<not> isspace c \<and> (range_0_9 c \<or> c \<in> set (str ''.+-*/^()'')))
       (str ''2+2'')"
proof -
  have h: "extract_expression (Some (str ''what is 2 + 2 please'')) = Some (str ''2+2'')"
    by code_simp
  from extract_expression_charset[OF h] h show ?thesis by (simp add: list_all_iff)
qed

section \<open>Claims about calculator/evaluator.py and handle\_math\<close>







text \<open>
  C3. Whatever the argument and the host, \<open>safe_eval\<close> returns a number or raises
  \<open>EvalError\<close>; an exception of the parser comes out as \<open>EvalError\<close> with the text
  \<open>Invalid expression:\<close> before its message; the empty string and \<open>None\<close> give the
  error of the empty or invalid expression.
\<close>

theorem safe_eval_single_error_type:
  "((\<exists>v. safe_eval h arg = Inr v) \<or> (\<exists>m. safe_eval h arg = Inl (EvalError m)))
   \<and> safe_eval h (ArgStr []) = Inl (EvalError (str ''Empty or invalid expression.''))
   \<and> safe_eval h ArgNone = Inl (EvalError (str ''Empty or invalid expression.''))
   \<and> safe_eval h ArgOther = Inl (EvalError (str ''Empty or invalid expression.''))
   \<and> (expr \<noteq> [] \<and> ast_parse h (replace_char (ord CHR ''^'') (str ''**'') expr)
         = Inl (OtherException m) \<longrightarrow>
       safe_eval h (ArgStr expr) = Inl (EvalError (str ''Invalid expression: '' @ m)))"
proof (intro conjI impI)
  show "(\<exists>v. safe_eval h arg = Inr v) \<or> (\<exists>m. safe_eval h arg = Inl (EvalError m))"
    by (rule safe_eval_cases)
next
  assume "expr \<noteq> [] \<and> ast_parse h (replace_char (ord CHR ''^'') (str ''**'') expr)
         = Inl (OtherException m)"
  then show "safe_eval h (ArgStr expr) = Inl (EvalError (str ''Invalid expression: '' @ m))"
    using safe_eval_parse_error[of expr h "OtherException m"] by simp
qed simp_all

theorem safe_eval_single_error_type_witness:
  "safe_eval example_host (ArgStr (str ''2+''))
     = Inl (EvalError (str ''Invalid expression: invalid syntax (<unknown>, line 1)''))
   \<and> safe_eval example_host (ArgStr []) = Inl (EvalError (str ''Empty or invalid expression.''))"
proof -
  have p: "ast_parse example_host (replace_char (ord CHR ''^'') (str ''**'') (str ''2+''))
      = Inl (OtherException (str ''invalid syntax (<unknown>, line 1)''))"
    unfolding parse_example by code_simp
  have n: "str ''2+'' \<noteq> []" by (simp add: str_def)
  have c: "str ''Invalid expression: '' @ str ''invalid syntax (<unknown>, line 1)''
      = str ''Invalid expression: invalid syntax (<unknown>, line 1)''"
    by (simp add: str_def)
  from safe_eval_single_error_type[of example_host "ArgStr []" "str ''2+''"
      "str ''invalid syntax (<unknown>, line 1)''"] p n c
  show ?thesis by simp
qed



text \<open>
  C5. When the expression extracted from a question evaluates to a float with no
  fractional part, \<open>handle_math\<close> converts it to the integer of the same value and
  hands that integer to \<open>str()\<close>; \<open>2+2\<close> evaluates to the integer 4 in the first
  place, and is presented as such.
\<close>

theorem handle_math_presents_integer:
  "(extract_expression q = Some expr \<and> safe_eval h (ArgStr expr) = Inr (NFloat f)
      \<and> is_integer f \<longrightarrow>
        (\<exists>n. int_of_float f = Inr n \<and> float_value f = Some (of_int n)
           \<and> handle_math h q =
               (case str_number h (NInt n) of
                  Inl e \<Rightarrow> Inl e
                | Inr s \<Rightarrow> Inr (expr @ str '' = '' @ s))))
   \<and> (ast_parse h (str ''2+2'') = Inr (BinOp (num 2) Add (num 2)) \<longrightarrow>
        safe_eval h (ArgStr (str ''2+2'')) = Inr (NInt 4)
        \<and> handle_math h (Some (str ''2+2'')) =
            (case str_number h (NInt 4) of
               Inl e \<Rightarrow> Inl e
             | Inr s \<Rightarrow> Inr (str ''2+2'' @ str '' = '' @ s)))"
proof (intro conjI impI)
  assume a: "extract_expression q = Some expr \<and> safe_eval h (ArgStr expr) = Inr (NFloat f)
      \<and> is_integer f"
  then have ne: "expr \<noteq> []" using extract_nonempty by blast
  from a obtain n where n: "int_of_float f = Inr n" "float_value f = Some (of_int n)"
    using is_integer_int by blast
  have "handle_math h q =
      (case str_number h (NInt n) of Inl e \<Rightarrow> Inl e | Inr s \<Rightarrow> Inr (expr @ str '' = '' @ s))"
    using a ne n(1) by (simp add: handle_math_def)
  with n show "\<exists>n. int_of_float f = Inr n \<and> float_value f = Some (of_int n)
      \<and> handle_math h q =
          (case str_number h (NInt n) of Inl e \<Rightarrow> Inl e | Inr s \<Rightarrow> Inr (expr @ str '' = '' @ s))"
    by blast
next
  have c: "replace_char (ord CHR ''^'') (str ''**'') (str ''2+2'') = str ''2+2''" by code_simp
  have n: "str ''2+2'' \<noteq> []" by (simp add: str_def)
  have x: "extract_expression (Some (str ''2+2'')) = Some (str ''2+2'')" by code_simp
  assume "ast_parse h (str ''2+2'') = Inr (BinOp (num 2) Add (num 2))"
  with c have "safe_eval h (ArgStr (str ''2+2''))
      = handlers (eval_node h (BinOp (num 2) Add (num 2)))"
    using safe_eval_tree[OF n] by simp
  then have s: "safe_eval h (ArgStr (str ''2+2'')) = Inr (NInt 4)"
    by (simp add: num_def op_add_def)
  then show "safe_eval h (ArgStr (str ''2+2'')) = Inr (NInt 4)" .
  from s show "handle_math h (Some (str ''2+2'')) =
      (case str_number h (NInt 4) of
         Inl e \<Rightarrow> Inl e
       | Inr s \<Rightarrow> Inr (str ''2+2'' @ str '' = '' @ s))"
    using x n by (simp add: handle_math_def)
qed

theorem handle_math_presents_integer_witness:
  "extract_expression (Some (str ''what is 4/2'')) = Some (str ''4/2'')
   \<and> safe_eval example_host (ArgStr (str ''4/2'')) = Inr (NFloat (Finite 2))
   \<and> is_integer (Finite 2)
   \<and> handle_math example_host (Some (str ''what is 4/2'')) = Inr (str ''4/2 = 2'')
   \<and> handle_math example_host (Some (str ''2+2'')) = Inr (str ''2+2 = 4'')"
proof -
  have x: "extract_expression (Some (str ''what is 4/2'')) = Some (str ''4/2'')" by code_simp
  have r: "replace_char (ord CHR ''^'') (str ''**'') (str ''4/2'') = str ''4/2''" by code_simp
  have p: "ast_parse example_host (str ''4/2'') = Inr (BinOp (num 4) Div (num 2))"
    unfolding parse_example by code_simp
  have n: "str ''4/2'' \<noteq> []" by (simp add: str_def)
  have s: "safe_eval example_host (ArgStr (str ''4/2'')) = Inr (NFloat (Finite 2))"
    using safe_eval_tree[OF n, of example_host] r p
    by (simp add: num_def op_truediv_def td_4_2)
  have i: "is_integer (Finite 2)" by simp
  have i2: "int_of_float (Finite 2) = Inr 2" by simp
  have p2: "ast_parse example_host (str ''2+2'') = Inr (BinOp (num 2) Add (num 2))"
    unfolding parse_example by code_simp
  have s2: "str_number example_host (NInt 2) = Inr (str ''2'')" by code_simp
  have s4: "str_number example_host (NInt 4) = Inr (str ''4'')" by code_simp
  have c2: "str ''4/2'' @ str '' = '' @ str ''2'' = str ''4/2 = 2''" by (simp add: str_def)
  have c4: "str ''2+2'' @ str '' = '' @ str ''4'' = str ''2+2 = 4''" by (simp add: str_def)
  from handle_math_presents_integer[of "Some (str ''what is 4/2'')" "str ''4/2''" example_host
      "Finite 2"] x s i i2 p2 s2 s4 c2 c4
  show ?thesis by simp
qed

text \<open>
  C10. The test on the value of a constant accepts a bool: a boolean literal
  evaluates to itself, so \<open>True\<close>, which has no digit, evaluates to \<open>True\<close>, and
  \<open>True+1\<close> to the integer 2.
\<close>

theorem bool_literal_accepted:
  "eval_node h (Constant (CBool b)) = Inr (NBool b)
   \<and> \<not> list_ex isdigit (str ''True'')
   \<and> (ast_parse h (str ''True'') = Inr (Constant (CBool True)) \<longrightarrow>
       safe_eval h (ArgStr (str ''True'')) = Inr (NBool True))
   \<and> (ast_parse h (str ''True+1'') = Inr (BinOp (Constant (CBool True)) Add (num 1)) \<longrightarrow>
       safe_eval h (ArgStr (str ''True+1'')) = Inr (NInt 2))"
proof (intro conjI impI)
  show "eval_node h (Constant (CBool b)) = Inr (NBool b)" by simp
next
  show "\<not> list_ex isdigit (str ''True'')" by code_simp
next
  have c: "replace_char (ord CHR ''^'') (str ''**'') (str ''True'') = str ''True''" by code_simp
  have n: "str ''True'' \<noteq> []" by (simp add: str_def)
  assume "ast_parse h (str ''True'') = Inr (Constant (CBool True))"
  with c have "safe_eval h (ArgStr (str ''True''))
      = handlers (eval_node h (Constant (CBool True)))"
    using safe_eval_tree[OF n] by simp
  then show "safe_eval h (ArgStr (str ''True'')) = Inr (NBool True)" by simp
next
  have c: "replace_char (ord CHR ''^'') (str ''**'') (str ''True+1'') = str ''True+1''"
    by code_simp
  have n: "str ''True+1'' \<noteq> []" by (simp add: str_def)
  assume "ast_parse h (str ''True+1'') = Inr (BinOp (Constant (CBool True)) Add (num 1))"
  with c have "safe_eval h (ArgStr (str ''True+1''))
      = handlers (eval_node h (BinOp (Constant (CBool True)) Add (num 1)))"
    using safe_eval_tree[OF n] by simp
  then show "safe_eval h (ArgStr (str ''True+1'')) = Inr (NInt 2)"
    by (simp add: num_def op_add_def)
qed

theorem bool_literal_accepted_witness:
  "safe_eval example_host (ArgStr (str ''True'')) = Inr (NBool True)
   \<and> safe_eval example_host (ArgStr (str ''True+1'')) = Inr (NInt 2)"
proof -
  have p1: "ast_parse example_host (str ''True'') = Inr (Constant (CBool True))"
    unfolding parse_example by code_simp
  have p2: "ast_parse example_host (str ''True+1'')
      = Inr (BinOp (Constant (CBool True)) Add (num 1))"
    unfolding parse_example by code_simp
  from bool_literal_accepted[of example_host] p1 p2 show ?thesis by blast
qed

end
